theory Spec2Isabelle
  imports Complex_Main "HOL-Library.List_Lexorder" "HOL-Library.Char_ord"
begin

section \<open>Shared data: errors, strings, sample sets\<close>

text \<open>
  The exceptions the modelled code raises.  \<open>KeyError\<close> carries its message;
  \<open>NonFinite\<close> stands for a float division by zero whose infinite or NaN quotient
  cannot be rounded to an integer; \<open>IOError\<close> carries the path that could not be read.
\<close>

datatype error = KeyError string | IndexError nat | NonFinite | IOError string

text \<open>
  Python's \<open>s.split(d)\<close> for a one-character separator: the pieces between
  separators, empty pieces kept, never an empty list.
\<close>

fun split_on :: "char \<Rightarrow> string \<Rightarrow> string list" where
  "split_on d [] = [[]]"
| "split_on d (c # cs) =
     (if c = d then [] # split_on d cs
      else (case split_on d cs of
              w # ws \<Rightarrow> (c # w) # ws
            | [] \<Rightarrow> [[c]]))"

definition is_digit :: "char \<Rightarrow> bool" where
  "is_digit c = (c \<in> set ''0123456789'')"

text \<open>
  \<open>re.search("_[0-9]$", filename)\<close>: some position holds an underscore followed by
  one digit, and the digit is at the end of the string or just before a final
  newline (Python's \<open>$\<close> matches in both places).
\<close>

fun re_search_sample_suffix :: "string \<Rightarrow> bool" where
  "re_search_sample_suffix [] = False"
| "re_search_sample_suffix (c # cs) =
     ((c = CHR ''_'' \<and>
        (case cs of
           [d] \<Rightarrow> is_digit d
         | [d, n] \<Rightarrow> is_digit d \<and> n = CHR 0x0A
         | _ \<Rightarrow> False))
      \<or> re_search_sample_suffix cs)"

text \<open>
  The body of the loop of \<open>filenames2samples\<close>, at the default arguments
  \<open>fn_delim = "_"\<close> and \<open>sampleidx = 0\<close> its only caller uses: the value added to
  the set for one file name.
\<close>

definition sample_of_filename :: "string \<Rightarrow> string" where
  "sample_of_filename filename =
     (if re_search_sample_suffix filename
      then hd (split_on CHR ''_'' filename)
      else filename)"

text \<open>
  \<open>filenames2samples\<close> at the default \<open>delim = "|"\<close>.  The Python set is kept as
  the list of its members without repetition; \<open>List.insert\<close> is \<open>set.add\<close>.
\<close>

definition filenames2samples :: "string \<Rightarrow> string list" where
  "filenames2samples filenames =
     fold (\<lambda>filename samples. List.insert (sample_of_filename filename) samples)
       (split_on CHR ''|'' filenames) []"

text \<open>The words of the specification: an entry that ends in an underscore and one digit.\<close>

definition ends_in_underscore_digit :: "string \<Rightarrow> bool" where
  "ends_in_underscore_digit s =
     (2 \<le> length s \<and> s ! (length s - 2) = CHR ''_'' \<and> is_digit (s ! (length s - 1)))"

definition prefix_before_underscore :: "string \<Rightarrow> string" where
  "prefix_before_underscore s = takeWhile (\<lambda>c. c \<noteq> CHR ''_'') s"

text \<open>The same set, as the specification words it.\<close>

definition spec_sample_of_filename :: "string \<Rightarrow> string" where
  "spec_sample_of_filename s =
     (if ends_in_underscore_digit s then prefix_before_underscore s else s)"

section \<open>Numbers\<close>

text \<open>
  Scores and measurements are 64-bit floats in the program; they are modelled as
  real numbers, so that rounding error is outside the model.  A NaN is \<open>None\<close> in a
  \<open>real option\<close>.  The activity table holds a number in every cell.
\<close>

text \<open>\<open>round(x)\<close> to an integer: the nearest one, a tie going to the even neighbour.\<close>

definition rint :: "real \<Rightarrow> int" where
  "rint x =
     (let f = \<lfloor>x\<rfloor>; d = x - of_int f
      in if d < 1 / 2 then f
         else if 1 / 2 < d then f + 1
         else if even f then f else f + 1)"

text \<open>\<open>round(x, n)\<close>: the same rounding at the n-th decimal.\<close>

definition round_ndigits :: "real \<Rightarrow> nat \<Rightarrow> real" where
  "round_ndigits x n = of_int (rint (x * 10 ^ n)) / 10 ^ n"

text \<open>\<open>min(xs)\<close> and \<open>max(xs)\<close> of a list that is not empty where they are called.\<close>

definition py_min :: "real list \<Rightarrow> real" where
  "py_min xs = fold min (tl xs) (hd xs)"

definition py_max :: "real list \<Rightarrow> real" where
  "py_max xs = fold max (tl xs) (hd xs)"

section \<open>Scoring (activity.py)\<close>

text \<open>
  The activity table is a data frame indexed by sample name: \<open>fpd.loc[samp].values\<close>
  is the row of that sample, and raises \<open>KeyError\<close> when no row has that label.  Every
  row of a data frame has the same width.
\<close>

type_synonym activity_table = "string \<rightharpoonup> real list"

definition table_width :: "activity_table \<Rightarrow> nat \<Rightarrow> bool" where
  "table_width fpd m = (\<forall>samp row. fpd samp = Some row \<longrightarrow> length row = m)"

record Score =
  activity :: real
  cluster :: real

text \<open>
  A basket as \<open>load_basket_data\<close> builds it: the MS1 columns, the file-name column and
  the set \<open>samples\<close>, held as the list of its members (no member twice).
\<close>

record basket =
  PrecMz :: real
  RetTime :: real
  PrecIntensity :: real
  filenames :: string
  samples :: "string list"

text \<open>
  The loop of \<open>get_samples_fps\<close>: the rows found, in the order of the samples, and the
  warnings logged for the samples that raised \<open>KeyError\<close>.
\<close>

fun get_samples_fps_loop :: "activity_table \<Rightarrow> string list \<Rightarrow> real list list \<times> string list" where
  "get_samples_fps_loop fpd [] = ([], [])"
| "get_samples_fps_loop fpd (samp # rest) =
     (case get_samples_fps_loop fpd rest of
        (to_cat, logged) \<Rightarrow>
          (case fpd samp of
             Some row \<Rightarrow> (row # to_cat, logged)
           | None \<Rightarrow> (to_cat, samp # logged)))"

text \<open>A result is the pair of what was logged and what was returned or raised.\<close>

definition get_samples_fps ::
  "activity_table \<Rightarrow> string list \<Rightarrow> string list \<times> (error + real list list)" where
  "get_samples_fps fpd samps =
     (case get_samples_fps_loop fpd samps of
        (to_cat, logged) \<Rightarrow>
          (logged,
           if to_cat = [] then Inl (KeyError ''No Fingerprints found...'')
           else Inr to_cat))"

text \<open>\<open>np.vstack(to_cat).mean(axis=0)\<close>: the mean of every column of the stacked rows.\<close>

definition mean_axis0 :: "real list list \<Rightarrow> real list" where
  "mean_axis0 rows =
     map (\<lambda>k. sum_list (map (\<lambda>row. row ! k) rows) / real (length rows))
       [0..<length (hd rows)]"

definition feature_synthetic_fp ::
  "activity_table \<Rightarrow> string list \<Rightarrow> string list \<times> (error + real list)" where
  "feature_synthetic_fp act_df samps =
     (case get_samples_fps act_df samps of
        (logged, Inl e) \<Rightarrow> (logged, Inl e)
      | (logged, Inr to_cat) \<Rightarrow> (logged, Inr (mean_axis0 to_cat)))"

text \<open>
  \<open>DataFrame.corr("pearson")\<close> of the pandas library, for two columns without missing
  values: the covariance of the centred columns over the root of the product of
  their sums of squares; NaN when there is no observation or that root is zero.
\<close>

definition mean :: "real list \<Rightarrow> real" where
  "mean xs = sum_list xs / real (length xs)"

definition centred :: "real list \<Rightarrow> real list" where
  "centred xs = map (\<lambda>x. x - mean xs) xs"

definition dot :: "real list \<Rightarrow> real list \<Rightarrow> real" where
  "dot xs ys = sum_list (map (\<lambda>(x, y). x * y) (zip xs ys))"

definition pearson :: "real list \<Rightarrow> real list \<Rightarrow> real option" where
  "pearson xs ys =
     (let covxy = dot (centred xs) (centred ys);
          ssqdm_x = dot (centred xs) (centred xs);
          ssqdm_y = dot (centred ys) (centred ys);
          divisor = sqrt (ssqdm_x * ssqdm_y)
      in if length xs < 1 then None
         else if divisor \<noteq> 0 then Some (covxy / divisor)
         else None)"

definition corr_pearson :: "real list list \<Rightarrow> real option list list" where
  "corr_pearson fps = map (\<lambda>x. map (\<lambda>y. pearson x y) fps) fps"

text \<open>\<open>np.triu_indices_from(corr, k=1)\<close>: the places above the diagonal, row by row.\<close>

definition triu_indices :: "nat \<Rightarrow> (nat \<times> nat) list" where
  "triu_indices j = concat (map (\<lambda>i. map (\<lambda>k. (i, k)) [Suc i..<j]) [0..<j])"

text \<open>\<open>np.nansum\<close>: a NaN counts as zero.\<close>

definition nan_to_zero :: "real option \<Rightarrow> real" where
  "nan_to_zero v = (case v of None \<Rightarrow> 0 | Some x \<Rightarrow> x)"

definition nansum :: "real option list \<Rightarrow> real" where
  "nansum vs = sum_list (map nan_to_zero vs)"

definition cluster_score ::
  "activity_table \<Rightarrow> string list \<Rightarrow> string list \<times> (error + real)" where
  "cluster_score fpd samps =
     (case get_samples_fps fpd samps of
        (logged, Inl e) \<Rightarrow> (logged, Inl e)
      | (logged, Inr fps) \<Rightarrow>
          (logged,
           let j = length fps
           in if j = 1 then Inr 0
              else let corr = corr_pearson fps
                   in Inr (nansum (map (\<lambda>(i, k). corr ! i ! k) (triu_indices j))
                           / ((real j ^ 2 - real j) / 2))))"

definition score_basket :: "basket \<Rightarrow> activity_table \<Rightarrow> string list \<times> (error + Score)" where
  "score_basket bask activity_df =
     (case feature_synthetic_fp activity_df (samples bask) of
        (logged, Inl e) \<Rightarrow> (logged, Inl e)
      | (logged, Inr sfp) \<Rightarrow>
          (let act_score = sum_list (map (\<lambda>v. v ^ 2) sfp)
           in case cluster_score activity_df (samples bask) of
                (logged', Inl e) \<Rightarrow> (logged @ logged', Inl e)
              | (logged', Inr clust_score) \<Rightarrow>
                  (logged @ logged',
                   Inr \<lparr>activity = act_score, cluster = clust_score\<rparr>)))"

text \<open>
  \<open>score_baskets\<close> maps \<open>score_basket\<close> over the baskets through joblib's \<open>Parallel\<close>,
  which returns the list of all results, or raises in the caller what a task raised.
  Nothing in between catches an exception.
\<close>

fun score_baskets :: "basket list \<Rightarrow> activity_table \<Rightarrow> error + Score list" where
  "score_baskets [] activity_df = Inr []"
| "score_baskets (bask # rest) activity_df =
     (case snd (score_basket bask activity_df) of
        Inl e \<Rightarrow> Inl e
      | Inr s \<Rightarrow>
          (case score_baskets rest activity_df of
             Inl e \<Rightarrow> Inl e
           | Inr ss \<Rightarrow> Inr (s # ss)))"

section \<open>The tabular output (activity.py)\<close>

text \<open>
  A row of the output table is the tuple the code appends, in the order of
  \<open>columns\<close>.  \<open>json.dumps\<close> belongs to the standard library and is a parameter.
  \<open>scores[i]\<close> on a list raises \<open>IndexError\<close> past its end, which the
  \<open>except KeyError\<close> of the loop does not catch.
\<close>

type_synonym table_row = "nat \<times> nat \<times> real \<times> real \<times> real \<times> string \<times> real \<times> real"

definition columns :: "string list" where
  "columns =
     [''BasketID'', ''Frequency'', ''PrecMz'', ''PrecIntensity'', ''RetTime'',
      ''SampleList'', ''ACTIVITY_SCORE'', ''CLUSTER_SCORE'']"

fun output_rows ::
  "(string list \<Rightarrow> string) \<Rightarrow> nat \<Rightarrow> basket list \<Rightarrow> Score list \<Rightarrow> error + table_row list" where
  "output_rows json_dumps i [] scores = Inr []"
| "output_rows json_dumps i (bask # rest) scores =
     (let bid = i;
          freq = length (samples bask);
          samplelist = json_dumps (sort (samples bask))
      in if i < length scores
         then (let act = activity (scores ! i);
                   clust = cluster (scores ! i);
                   row = (bid, freq, PrecMz bask, PrecIntensity bask, RetTime bask,
                          samplelist, act, clust)
               in case output_rows json_dumps (Suc i) rest scores of
                    Inl e \<Rightarrow> Inl e
                  | Inr data \<Rightarrow> Inr (row # data))
         else Inl (IndexError i))"

definition create_output_table ::
  "(string list \<Rightarrow> string) \<Rightarrow> basket list \<Rightarrow> Score list
     \<Rightarrow> error + (string list \<times> table_row list)" where
  "create_output_table json_dumps baskets scores =
     (case output_rows json_dumps 0 baskets scores of
        Inl e \<Rightarrow> Inl e
      | Inr data \<Rightarrow> Inr (columns, data))"

section \<open>The association network (activity.py)\<close>

text \<open>
  The \<open>Basket\<close> tuple carried into the graph: the measurements rounded to four
  decimals, the two scores rounded to two.  \<open>";".join\<close> is written out.
\<close>

record Basket =
  id_basket :: nat
  freq :: nat
  samples_joined :: string
  PrecMz_4 :: real
  RetTime_4 :: real
  PrecIntensity_4 :: real
  activity_score :: real
  cluster_score_2 :: real

fun join_semicolon :: "string list \<Rightarrow> string" where
  "join_semicolon [] = []"
| "join_semicolon [s] = s"
| "join_semicolon (s # rest) = s @ '';'' @ join_semicolon rest"

record sample_node =
  sample_name :: string
  sample_radius :: int
  sample_depth :: nat
  sample_color :: string

record basket_node =
  info :: Basket
  radius :: int
  depth :: nat
  color :: string

record graph =
  sample_nodes :: "sample_node list"
  basket_nodes :: "basket_node list"
  edges :: "(nat \<times> string) list"

text \<open>
  The \<open>Basket(...)\<close> that the first loop of \<open>create_association_network\<close> builds
  for basket \<open>bid\<close> with the scores \<open>act\<close> and \<open>clust\<close>.
\<close>

definition Basket_of :: "nat \<Rightarrow> basket \<Rightarrow> real \<Rightarrow> real \<Rightarrow> Basket" where
  "Basket_of bid bask act clust =
     \<lparr>id_basket = bid,
      freq = length (samples bask),
      samples_joined = join_semicolon (samples bask),
      PrecMz_4 = round_ndigits (PrecMz bask) 4,
      RetTime_4 = round_ndigits (RetTime bask) 4,
      PrecIntensity_4 = round_ndigits (PrecIntensity bask) 4,
      activity_score = round_ndigits act 2,
      cluster_score_2 = round_ndigits clust 2\<rparr>"

text \<open>
  That loop, one basket at a time: the state is the edges, the basket tuples, the
  set of samples and the list of activity scores (not rounded).
\<close>

record net_state =
  st_edges :: "(nat \<times> string) list"
  st_basket_info :: "Basket list"
  st_samples :: "string list"
  st_activity_scores :: "real list"

fun collect_baskets :: "nat \<Rightarrow> basket list \<Rightarrow> Score list \<Rightarrow> net_state \<Rightarrow> error + net_state" where
  "collect_baskets i [] scores st = Inr st"
| "collect_baskets i (bask # rest) scores st =
     (if i < length scores
      then (let act = activity (scores ! i);
                clust = cluster (scores ! i)
            in collect_baskets (Suc i) rest scores
                 \<lparr>st_edges = st_edges st @ map (\<lambda>samp. (i, samp)) (samples bask),
                  st_basket_info = st_basket_info st @ [Basket_of i bask act clust],
                  st_samples = fold List.insert (samples bask) (st_samples st),
                  st_activity_scores = st_activity_scores st @ [act]\<rparr>)
      else Inl (IndexError i))"

text \<open>
  The node size.  The scores are numpy floats: a zero denominator gives an infinite
  or NaN quotient, which \<open>round\<close> cannot turn into an integer.
\<close>

definition node_size :: "real list \<Rightarrow> real \<Rightarrow> error + int" where
  "node_size activity_scores a =
     (if py_max activity_scores - py_min activity_scores = 0 then Inl NonFinite
      else Inr (rint (3 + ((10 - 3) * (a - py_min activity_scores))
                          / (py_max activity_scores - py_min activity_scores))))"

definition node_color :: "real \<Rightarrow> string" where
  "node_color c =
     (if c > 0.75 then ''rgb(165,0,38)''
      else if c > 0.5 then ''rgb(215,48,39)''
      else if c > 0.25 then ''rgb(244,109,67)''
      else if c > 0 then ''rgb(253,174,97)''
      else if c > - 0.25 then ''rgb(171,217,233)''
      else if c > - 0.5 then ''rbg(116,173,209)''
      else if c > - 0.75 then ''rgb(69,117,180)''
      else ''rgb(49,54,149)'')"

fun add_basket_nodes :: "real list \<Rightarrow> Basket list \<Rightarrow> error + basket_node list" where
  "add_basket_nodes activity_scores [] = Inr []"
| "add_basket_nodes activity_scores (b # rest) =
     (case node_size activity_scores (activity_score b) of
        Inl e \<Rightarrow> Inl e
      | Inr nodeSize \<Rightarrow>
          (case add_basket_nodes activity_scores rest of
             Inl e \<Rightarrow> Inl e
           | Inr nodes \<Rightarrow>
               Inr (\<lparr>info = b, radius = nodeSize, depth = 1,
                     color = node_color (cluster_score_2 b)\<rparr> # nodes)))"

definition create_association_network :: "basket list \<Rightarrow> Score list \<Rightarrow> error + graph" where
  "create_association_network baskets scores =
     (case collect_baskets 0 baskets scores
             \<lparr>st_edges = [], st_basket_info = [], st_samples = [], st_activity_scores = []\<rparr> of
        Inl e \<Rightarrow> Inl e
      | Inr st \<Rightarrow>
          (case add_basket_nodes (st_activity_scores st) (st_basket_info st) of
             Inl e \<Rightarrow> Inl e
           | Inr nodes \<Rightarrow>
               Inr \<lparr>sample_nodes =
                      map (\<lambda>samp. \<lparr>sample_name = samp, sample_radius = 6, sample_depth = 0,
                                   sample_color = ''rgb(51,51,51)''\<rparr>) (st_samples st),
                    basket_nodes = nodes,
                    edges = st_edges st\<rparr>))"

section \<open>Replicate processing and basketing (core.py)\<close>

text \<open>
  The entries of the configuration dictionary that the modelled code reads itself.
\<close>

record configd =
  FILENAMECOL :: string
  MINREPS :: nat

text \<open>
  The functions of \<open>npanalyst.utils\<close> are parameters: \<open>mzml_to_df\<close> loads one file or
  raises, and \<open>consolidate cfg min_reps dfs\<close> stands for the chain from \<open>pd.concat\<close> to
  \<open>collapse_connected_components(con_comps, df, configd, min_reps)\<close>.  The files
  written under \<open>replicated/\<close> are a map from file name to content.
\<close>

fun load_dfs :: "(string \<Rightarrow> error + 'df) \<Rightarrow> string list \<Rightarrow> error + 'df list" where
  "load_dfs mzml_to_df [] = Inr []"
| "load_dfs mzml_to_df (p # ps) =
     (case mzml_to_df p of
        Inl e \<Rightarrow> Inl e
      | Inr df \<Rightarrow>
          (case load_dfs mzml_to_df ps of
             Inl e \<Rightarrow> Inl e
           | Inr dfs \<Rightarrow> Inr (df # dfs)))"

definition replicate_compare_sample ::
  "(string \<Rightarrow> error + 'df) \<Rightarrow> (configd \<Rightarrow> nat \<Rightarrow> 'df list \<Rightarrow> error + 'out)
     \<Rightarrow> string \<Rightarrow> string list \<Rightarrow> configd \<Rightarrow> (string \<rightharpoonup> 'out) \<Rightarrow> error + (string \<rightharpoonup> 'out)" where
  "replicate_compare_sample mzml_to_df consolidate sample data_paths cfg files =
     (case load_dfs mzml_to_df data_paths of
        Inl e \<Rightarrow> Inl e
      | Inr dfs \<Rightarrow>
          (case consolidate cfg (MINREPS cfg) dfs of
             Inl e \<Rightarrow> Inl e
           | Inr ndf \<Rightarrow> Inr (files(sample @ ''_replicated.csv'' \<mapsto> ndf))))"

text \<open>
  \<open>process_replicates\<close> hands the samples to joblib's \<open>Parallel\<close> and catches nothing:
  an exception of a task is raised in the caller and no further task is started.
  The model runs the tasks in the order of \<open>paths_iter\<close>, as \<open>max_workers = 1\<close> does,
  and returns the files written together with the exception raised, if any.
\<close>

fun process_replicates ::
  "(string \<Rightarrow> error + 'df) \<Rightarrow> (configd \<Rightarrow> nat \<Rightarrow> 'df list \<Rightarrow> error + 'out)
     \<Rightarrow> (string \<times> string list) list \<Rightarrow> configd \<Rightarrow> (string \<rightharpoonup> 'out)
     \<Rightarrow> (string \<rightharpoonup> 'out) \<times> error option" where
  "process_replicates mzml_to_df consolidate [] cfg files = (files, None)"
| "process_replicates mzml_to_df consolidate ((sample, paths) # rest) cfg files =
     (case replicate_compare_sample mzml_to_df consolidate sample paths cfg files of
        Inl e \<Rightarrow> (files, Some e)
      | Inr files' \<Rightarrow> process_replicates mzml_to_df consolidate rest cfg files')"





section \<open>Sample names from file names\<close>

text \<open>
  \<open>load_basket_data\<close> after the table is read: every record gets the set of samples
  of its file-name column.
\<close>

definition load_basket_data :: "basket list \<Rightarrow> basket list" where
  "load_basket_data records =
     map (\<lambda>bd. bd\<lparr>samples := filenames2samples (filenames bd)\<rparr>) records"

text \<open>
  What the pattern of \<open>filenames2samples\<close> accepts: an entry that ends in an
  underscore and one digit, with or without one newline after the digit.
\<close>

definition suffix_matches :: "string \<Rightarrow> bool" where
  "suffix_matches s =
     (ends_in_underscore_digit s \<or>
      (s \<noteq> [] \<and> last s = CHR 0x0A \<and> ends_in_underscore_digit (butlast s)))"

section \<open>A small run, for evaluation\<close>

definition example_baskets :: "basket list" where
  "example_baskets =
     [\<lparr>PrecMz = 100, RetTime = 1, PrecIntensity = 10, filenames = ''A_1'', samples = [''A'']\<rparr>,
      \<lparr>PrecMz = 200, RetTime = 2, PrecIntensity = 20, filenames = ''A_1|B'',
        samples = [''B'', ''A'']\<rparr>]"


definition small_scores :: "Score list" where
  "small_scores = [\<lparr>activity = 0.0025, cluster = 0.8\<rparr>, \<lparr>activity = 0.0049, cluster = - 0.3\<rparr>]"

definition equal_scores :: "Score list" where
  "equal_scores = [\<lparr>activity = 1, cluster = 0.8\<rparr>, \<lparr>activity = 1, cluster = - 0.3\<rparr>]"



text \<open>The radii of the basket nodes of the network, in the order of the baskets.\<close>

definition basket_radii :: "basket list \<Rightarrow> Score list \<Rightarrow> error + int list" where
  "basket_radii baskets scores =
     (case create_association_network baskets scores of
        Inl e \<Rightarrow> Inl e
      | Inr g \<Rightarrow> Inr (map radius (basket_nodes g)))"

definition example_table :: activity_table where
  "example_table = map_of [(''A'', [1, 2]), (''B'', [3, 4]), (''C'', [5, 5])]"

definition unmatched_basket :: basket where
  "unmatched_basket =
     \<lparr>PrecMz = 300, RetTime = 3, PrecIntensity = 30, filenames = ''Z'', samples = [''Z'']\<rparr>"

definition mixed_basket :: basket where
  "mixed_basket =
     \<lparr>PrecMz = 400, RetTime = 4, PrecIntensity = 40, filenames = ''B|Z|A'',
      samples = [''B'', ''Z'', ''A'']\<rparr>"






definition example_config :: configd where
  "example_config = \<lparr>FILENAMECOL = ''Sample'', MINREPS = 3\<rparr>"

text \<open>A loader that cannot read one file, and a consolidation that counts its tables.\<close>

definition example_mzml_to_df :: "string \<Rightarrow> error + string" where
  "example_mzml_to_df p = (if p = ''bad.mzml'' then Inl (IOError p) else Inr p)"

definition example_consolidate :: "configd \<Rightarrow> nat \<Rightarrow> string list \<Rightarrow> error + nat" where
  "example_consolidate cfg min_reps dfs = Inr (length dfs)"

text \<open>The places of a square matrix of order \<open>j\<close> that are off the diagonal.\<close>

definition offdiag_indices :: "nat \<Rightarrow> (nat \<times> nat) list" where
  "offdiag_indices j = filter (\<lambda>(i, k). i \<noteq> k) (List.product [0..<j] [0..<j])"

chapter \<open>Properties\<close>

section \<open>Sample names from file names: properties\<close>

lemma split_on_nonempty: "split_on d s \<noteq> []"
  by (induction s) (auto split: list.splits)

lemma hd_split_on: "hd (split_on d s) = takeWhile (\<lambda>c. c \<noteq> d) s"
  by (induction s) (auto split: list.splits simp: split_on_nonempty)

lemma re_search_append:
  "re_search_sample_suffix s \<Longrightarrow> re_search_sample_suffix (p @ s)"
  by (induction p) auto

lemma re_search_iff:
  "re_search_sample_suffix s \<longleftrightarrow>
     (\<exists>p d. is_digit d \<and> (s = p @ [CHR ''_'', d] \<or> s = p @ [CHR ''_'', d, CHR 0x0A]))"
proof
  show "re_search_sample_suffix s \<Longrightarrow>
     (\<exists>p d. is_digit d \<and> (s = p @ [CHR ''_'', d] \<or> s = p @ [CHR ''_'', d, CHR 0x0A]))"
  proof (induction s)
    case Nil
    then show ?case by simp
  next
    case (Cons c cs)
    show ?case
    proof (cases "re_search_sample_suffix cs")
      case True
      then obtain p d where "is_digit d"
        "cs = p @ [CHR ''_'', d] \<or> cs = p @ [CHR ''_'', d, CHR 0x0A]"
        using Cons.IH by blast
      then have "is_digit d \<and> (c # cs = (c # p) @ [CHR ''_'', d]
                   \<or> c # cs = (c # p) @ [CHR ''_'', d, CHR 0x0A])"
        by auto
      then show ?thesis by blast
    next
      case False
      with Cons.prems have h: "c = CHR ''_''"
        "(case cs of [d] \<Rightarrow> is_digit d | [d, n] \<Rightarrow> is_digit d \<and> n = CHR 0x0A | _ \<Rightarrow> False)"
        by auto
      from h(2) obtain d where "is_digit d" "cs = [d] \<or> cs = [d, CHR 0x0A]"
        by (auto split: list.splits)
      with h(1) have "is_digit d \<and> (c # cs = [] @ [CHR ''_'', d]
                        \<or> c # cs = [] @ [CHR ''_'', d, CHR 0x0A])"
        by auto
      then show ?thesis by blast
    qed
  qed
next
  assume "\<exists>p d. is_digit d \<and> (s = p @ [CHR ''_'', d] \<or> s = p @ [CHR ''_'', d, CHR 0x0A])"
  then obtain p d where d: "is_digit d"
    and s: "s = p @ [CHR ''_'', d] \<or> s = p @ [CHR ''_'', d, CHR 0x0A]"
    by blast
  have "re_search_sample_suffix [CHR ''_'', d]"
    "re_search_sample_suffix [CHR ''_'', d, CHR 0x0A]"
    using d by auto
  with s show "re_search_sample_suffix s"
    using re_search_append by blast
qed

lemma ends_in_underscore_digit_iff:
  "ends_in_underscore_digit s \<longleftrightarrow> (\<exists>p d. is_digit d \<and> s = p @ [CHR ''_'', d])"
proof
  assume e: "ends_in_underscore_digit s"
  then have l: "2 \<le> length s"
    by (simp add: ends_in_underscore_digit_def)
  define p where "p = take (length s - 2) s"
  have "s = p @ drop (length s - 2) s"
    by (simp add: p_def)
  moreover have "drop (length s - 2) s = [s ! (length s - 2), s ! (length s - 1)]"
  proof -
    have "length (drop (length s - 2) s) = 2"
      using l by simp
    then obtain a b where ab: "drop (length s - 2) s = [a, b]"
      by (metis (no_types, opaque_lifting) One_nat_def Suc_1 length_0_conv length_Suc_conv)
    have "a = drop (length s - 2) s ! 0" "b = drop (length s - 2) s ! 1"
      using ab by simp_all
    then have "a = s ! (length s - 2)" "b = s ! (length s - 1)"
      using l by (simp_all add: numeral_2_eq_2 Suc_diff_Suc)
    then show ?thesis
      using ab by simp
  qed
  ultimately show "\<exists>p d. is_digit d \<and> s = p @ [CHR ''_'', d]"
    using e by (metis ends_in_underscore_digit_def)
next
  assume "\<exists>p d. is_digit d \<and> s = p @ [CHR ''_'', d]"
  then show "ends_in_underscore_digit s"
    by (auto simp: ends_in_underscore_digit_def nth_append)
qed

lemma suffix_matches_iff: "suffix_matches s \<longleftrightarrow> re_search_sample_suffix s"
proof -
  have "(s \<noteq> [] \<and> last s = CHR 0x0A \<and> ends_in_underscore_digit (butlast s))
          \<longleftrightarrow> (\<exists>p d. is_digit d \<and> s = p @ [CHR ''_'', d, CHR 0x0A])"
  proof
    assume a: "s \<noteq> [] \<and> last s = CHR 0x0A \<and> ends_in_underscore_digit (butlast s)"
    then obtain p d where "is_digit d" "butlast s = p @ [CHR ''_'', d]"
      using ends_in_underscore_digit_iff by blast
    moreover have "s = butlast s @ [CHR 0x0A]"
      using a by (metis append_butlast_last_id)
    ultimately have "is_digit d \<and> s = p @ [CHR ''_'', d, CHR 0x0A]"
      by simp
    then show "\<exists>p d. is_digit d \<and> s = p @ [CHR ''_'', d, CHR 0x0A]"
      by blast
  next
    assume "\<exists>p d. is_digit d \<and> s = p @ [CHR ''_'', d, CHR 0x0A]"
    then obtain p d where d: "is_digit d" and s: "s = p @ [CHR ''_'', d, CHR 0x0A]"
      by blast
    have "butlast s = p @ [CHR ''_'', d]"
      using s by (simp add: butlast_append)
    then have "ends_in_underscore_digit (butlast s)"
      using d ends_in_underscore_digit_iff by blast
    then show "s \<noteq> [] \<and> last s = CHR 0x0A \<and> ends_in_underscore_digit (butlast s)"
      using s by simp
  qed
  then show ?thesis
    unfolding suffix_matches_def re_search_iff ends_in_underscore_digit_iff by blast
qed

lemma sample_of_filename_eq:
  "sample_of_filename e = (if suffix_matches e then prefix_before_underscore e else e)"
  by (simp add: sample_of_filename_def suffix_matches_iff hd_split_on
      prefix_before_underscore_def)

lemma fold_insert_set:
  "set (fold (\<lambda>x acc. List.insert (f x) acc) xs acc) = f ` set xs \<union> set acc"
  by (induction xs arbitrary: acc) auto

lemma fold_insert_distinct:
  "distinct acc \<Longrightarrow> distinct (fold (\<lambda>x acc. List.insert (f x) acc) xs acc)"
  by (induction xs arbitrary: acc) auto

lemma fold_insert_length:
  "length (fold (\<lambda>x acc. List.insert (f x) acc) xs acc) \<le> length xs + length acc"
proof (induction xs arbitrary: acc)
  case Nil
  then show ?case by simp
next
  case (Cons x xs)
  have "length (List.insert (f x) acc) \<le> Suc (length acc)"
    by (simp add: List.insert_def)
  with Cons [of "List.insert (f x) acc"] show ?case
    by simp
qed

lemma filenames2samples_example:
  "filenames2samples ''A_1|A_2'' = [''A'']"
  by (simp add: filenames2samples_def sample_of_filename_def is_digit_def)

text \<open>
  C10, as stated, fails: the entry \<open>A_1\<close> followed by a newline does not end in an
  underscore and a digit, yet it contributes \<open>A\<close> and not itself.
\<close>

theorem filenames2samples_newline_counterexample:
  "set (filenames2samples [CHR ''A'', CHR ''_'', CHR ''1'', CHR 0x0A])
     \<noteq> spec_sample_of_filename ` set (split_on CHR ''|'' [CHR ''A'', CHR ''_'', CHR ''1'', CHR 0x0A])"
  by (simp add: filenames2samples_def sample_of_filename_def is_digit_def
      spec_sample_of_filename_def ends_in_underscore_digit_def)

text \<open>
  C10, amended: for every \<open>|\<close>-delimited string, \<open>filenames2samples\<close> returns the set
  of the images of its entries, where an entry that ends in an underscore and one
  decimal digit, or in these two followed by one final newline, contributes its
  prefix before the first underscore, and any other entry contributes itself.
  No member is repeated, so the number of samples is at most the number of entries,
  and it can be smaller: the \<open>Frequency\<close> of the output table is the number of
  samples of the basket that \<open>load_basket_data\<close> builds, the \<open>freq\<close> of
  \<open>basket_replicated\<close> is the number of entries, and for \<open>A_1|A_2\<close> they are 1 and 2.
\<close>

theorem filenames2samples_set:
  "set (filenames2samples s) =
     (\<lambda>e. if suffix_matches e then prefix_before_underscore e else e)
       ` set (split_on CHR ''|'' s)
   \<and> distinct (filenames2samples s)
   \<and> length (filenames2samples s) \<le> length (split_on CHR ''|'' s)
   \<and> samples (hd (load_basket_data [bd\<lparr>filenames := s\<rparr>])) = filenames2samples s
   \<and> (\<exists>x. length (filenames2samples x) = 1 \<and> length (split_on CHR ''|'' x) = 2)"
proof -
  have f: "sample_of_filename = (\<lambda>e. if suffix_matches e then prefix_before_underscore e else e)"
    using sample_of_filename_eq by blast
  have 1: "set (filenames2samples s) =
     (\<lambda>e. if suffix_matches e then prefix_before_underscore e else e)
       ` set (split_on CHR ''|'' s)"
    unfolding filenames2samples_def fold_insert_set f by simp
  have 2: "distinct (filenames2samples s)"
    unfolding filenames2samples_def by (rule fold_insert_distinct) simp
  have 3: "length (filenames2samples s) \<le> length (split_on CHR ''|'' s)"
    unfolding filenames2samples_def
    using fold_insert_length [of sample_of_filename "split_on CHR ''|'' s" "[]"] by simp
  have 4: "samples (hd (load_basket_data [bd\<lparr>filenames := s\<rparr>])) = filenames2samples s"
    by (simp add: load_basket_data_def)
  have "length (filenames2samples ''A_1|A_2'') = 1 \<and> length (split_on CHR ''|'' ''A_1|A_2'') = 2"
    by (simp add: filenames2samples_example)
  then have 5: "\<exists>x. length (filenames2samples x) = 1 \<and> length (split_on CHR ''|'' x) = 2"
    by blast
  from 1 2 3 4 5 show ?thesis by blast
qed

theorem filenames2samples_set_witness:
  "set (filenames2samples ''A_1|A_2|B'') = {''A'', ''B''}
   \<and> length (filenames2samples ''A_1|A_2|B'') \<le> 3"
proof -
  have e: "(\<lambda>e. if suffix_matches e then prefix_before_underscore e else e)
             ` set (split_on CHR ''|'' ''A_1|A_2|B'') = {''A'', ''B''}"
    by (auto simp add: suffix_matches_def ends_in_underscore_digit_def is_digit_def
        prefix_before_underscore_def)
  have l: "length (split_on CHR ''|'' ''A_1|A_2|B'') = 3"
    by simp
  note t = filenames2samples_set [where s = "''A_1|A_2|B''"
      and bd = "\<lparr>PrecMz = 0, RetTime = 0, PrecIntensity = 0, filenames = [], samples = []\<rparr>"]
  from t have "set (filenames2samples ''A_1|A_2|B'') =
     (\<lambda>e. if suffix_matches e then prefix_before_underscore e else e)
       ` set (split_on CHR ''|'' ''A_1|A_2|B'')"
    by (rule conjunct1)
  moreover from t have "length (filenames2samples ''A_1|A_2|B'')
      \<le> length (split_on CHR ''|'' ''A_1|A_2|B'')"
    by blast
  ultimately show ?thesis
    unfolding e l by blast
qed

section \<open>The association network: properties\<close>

lemma rint_of_int [simp]: "rint (of_int n) = n"
  by (simp add: rint_def)

lemma rint_numeral [simp]: "rint (numeral k) = numeral k"
  using rint_of_int [of "numeral k"] by simp

lemma rint_neg_numeral [simp]: "rint (- numeral k) = - numeral k"
  using rint_of_int [of "- numeral k"] by simp











text \<open>
  C4: the radius of a basket node.  The comment of the code says that the size should
  range between 3 and 10.  At the activity scores 0.0025 and 0.0049, which differ, the
  attribute of both nodes is 0.0 after rounding to two decimals while the minimum and
  the maximum are taken over the scores as they are, and both baskets get the radius
  -4, where the smaller should get 3 and the larger 10.  When both baskets have the
  activity score 1 the denominator is zero and no radius is produced.
\<close>

theorem basket_radius_out_of_range:
  "basket_radii example_baskets small_scores = Inr [- 4, - 4]
   \<and> map activity small_scores = [0.0025, 0.0049]
   \<and> basket_radii example_baskets equal_scores = Inl NonFinite"
proof -
  have r: "rint (3 + (10 - 3) * (0 - 0.0025) / (0.0049 - 0.0025)) = - 4"
    by (simp add: rint_def)
  have "round_ndigits 0.0025 2 = 0" "round_ndigits 0.0049 2 = 0"
    by (simp_all add: round_ndigits_def rint_def)
  then have 1: "basket_radii example_baskets small_scores = Inr [- 4, - 4]"
    using r
    by (simp add: basket_radii_def create_association_network_def example_baskets_def
        small_scores_def node_size_def py_min_def py_max_def Basket_of_def)
  have 2: "map activity small_scores = [0.0025, 0.0049]"
    by (simp add: small_scores_def)
  have 3: "basket_radii example_baskets equal_scores = Inl NonFinite"
    by (simp add: basket_radii_def create_association_network_def example_baskets_def
        equal_scores_def node_size_def py_min_def py_max_def Basket_of_def)
  from 1 2 3 show ?thesis
    by (intro conjI)
qed

section \<open>Scoring: properties\<close>

lemma get_samples_fps_loop_eq:
  "get_samples_fps_loop fpd samps =
     (map (\<lambda>s. the (fpd s)) (filter (\<lambda>s. fpd s \<noteq> None) samps),
      filter (\<lambda>s. fpd s = None) samps)"
  by (induction samps) (auto split: option.splits)

lemma get_samples_fps_eq:
  "get_samples_fps fpd samps =
     (filter (\<lambda>s. fpd s = None) samps,
      if filter (\<lambda>s. fpd s \<noteq> None) samps = []
      then Inl (KeyError ''No Fingerprints found...'')
      else Inr (map (\<lambda>s. the (fpd s)) (filter (\<lambda>s. fpd s \<noteq> None) samps)))"
  by (simp add: get_samples_fps_def get_samples_fps_loop_eq)

lemma cluster_score_found:
  "filter (\<lambda>s. fpd s \<noteq> None) samps \<noteq> [] \<Longrightarrow>
     \<exists>c. cluster_score fpd samps = (filter (\<lambda>s. fpd s = None) samps, Inr c)"
  by (simp add: cluster_score_def get_samples_fps_eq Let_def)

lemma mean_axis0_found:
  assumes "table_width fpd m" and "found \<noteq> []" and "\<forall>s \<in> set found. fpd s \<noteq> None"
  shows "mean_axis0 (map (\<lambda>s. the (fpd s)) found) =
           map (\<lambda>k. (\<Sum>s\<leftarrow>found. the (fpd s) ! k) / real (length found)) [0..<m]"
proof -
  have "fpd (hd found) \<noteq> None"
    using assms(2,3) by simp
  then have "length (the (fpd (hd found))) = m"
    using assms(1) unfolding table_width_def by auto
  then have "length (hd (map (\<lambda>s. the (fpd s)) found)) = m"
    using assms(2) by (simp add: hd_map)
  then show ?thesis
    unfolding mean_axis0_def by (simp add: comp_def)
qed

lemma score_basket_unmatched:
  "filter (\<lambda>s. fpd s \<noteq> None) (samples bask) = [] \<Longrightarrow>
     score_basket bask fpd =
       (filter (\<lambda>s. fpd s = None) (samples bask), Inl (KeyError ''No Fingerprints found...''))"
  by (simp add: score_basket_def feature_synthetic_fp_def get_samples_fps_eq)

lemma score_basket_matched:
  assumes "filter (\<lambda>s. fpd s \<noteq> None) (samples bask) \<noteq> []"
  shows "\<exists>clust. score_basket bask fpd =
     (filter (\<lambda>s. fpd s = None) (samples bask) @ filter (\<lambda>s. fpd s = None) (samples bask),
      Inr \<lparr>activity = sum_list (map (\<lambda>v. v ^ 2)
               (mean_axis0 (map (\<lambda>s. the (fpd s))
                  (filter (\<lambda>s. fpd s \<noteq> None) (samples bask))))),
           cluster = clust\<rparr>)"
proof -
  obtain c where "cluster_score fpd (samples bask)
      = (filter (\<lambda>s. fpd s = None) (samples bask), Inr c)"
    using cluster_score_found [OF assms] by blast
  then show ?thesis
    using assms by (simp add: score_basket_def feature_synthetic_fp_def get_samples_fps_eq)
qed

text \<open>
  C5: for a basket with at least one sample found in the activity table (a data frame
  of \<open>m\<close> columns), \<open>score_basket\<close> returns a score, and its activity score is the sum,
  over the columns, of the square of the arithmetic mean of that column over exactly
  the samples of the basket that are rows of the table.  The samples that are not
  rows of the table are logged (once by each of the two look-ups), raise nothing and
  do not enter the mean.
\<close>

theorem score_basket_activity:
  assumes "table_width fpd m"
    and "filter (\<lambda>s. fpd s \<noteq> None) (samples bask) \<noteq> []"
  shows "\<exists>clust. score_basket bask fpd =
     (filter (\<lambda>s. fpd s = None) (samples bask) @ filter (\<lambda>s. fpd s = None) (samples bask),
      Inr \<lparr>activity =
             (\<Sum>k\<leftarrow>[0..<m].
                ((\<Sum>s\<leftarrow>filter (\<lambda>s. fpd s \<noteq> None) (samples bask). the (fpd s) ! k)
                  / real (length (filter (\<lambda>s. fpd s \<noteq> None) (samples bask)))) ^ 2),
           cluster = clust\<rparr>)"
proof -
  have "mean_axis0 (map (\<lambda>s. the (fpd s)) (filter (\<lambda>s. fpd s \<noteq> None) (samples bask))) =
      map (\<lambda>k. (\<Sum>s\<leftarrow>filter (\<lambda>s. fpd s \<noteq> None) (samples bask). the (fpd s) ! k)
                 / real (length (filter (\<lambda>s. fpd s \<noteq> None) (samples bask)))) [0..<m]"
    using assms by (intro mean_axis0_found) simp_all
  then show ?thesis
    using score_basket_matched [OF assms(2)] by (simp add: comp_def)
qed

theorem score_basket_activity_witness:
  "table_width example_table 2
   \<and> filter (\<lambda>s. example_table s \<noteq> None) (samples mixed_basket) = [''B'', ''A'']
   \<and> fst (score_basket mixed_basket example_table) = [''Z'', ''Z'']
   \<and> map_sum id activity (snd (score_basket mixed_basket example_table)) = Inr 13"
proof -
  have w: "table_width example_table 2"
    by (auto simp: table_width_def example_table_def split: if_splits)
  have f: "filter (\<lambda>s. example_table s \<noteq> None) (samples mixed_basket) = [''B'', ''A'']"
    by (simp add: example_table_def mixed_basket_def)
  have g: "filter (\<lambda>s. example_table s = None) (samples mixed_basket) = [''Z'']"
    by (simp add: example_table_def mixed_basket_def)
  have n: "filter (\<lambda>s. example_table s \<noteq> None) (samples mixed_basket) \<noteq> []"
    unfolding f by simp
  have a: "(\<Sum>k\<leftarrow>[0..<2]. ((\<Sum>s\<leftarrow>[''B'', ''A'']. the (example_table s) ! k)
              / real (length [''B'', ''A''])) ^ 2) = 13"
  proof -
    have u: "[0..<2] = [0, 1::nat]"
      by code_simp
    show ?thesis
      unfolding u by (simp add: example_table_def power2_eq_square)
  qed
  from score_basket_activity [OF w n] obtain clust where
    "score_basket mixed_basket example_table = ([''Z''] @ [''Z''],
       Inr \<lparr>activity = 13, cluster = clust\<rparr>)"
    unfolding f g a by blast
  then show ?thesis
    using w f by simp
qed
lemma score_basket_result:
  "snd (score_basket bask fpd) =
     (if filter (\<lambda>s. fpd s \<noteq> None) (samples bask) = []
      then Inl (KeyError ''No Fingerprints found...'')
      else Inr (projr (snd (score_basket bask fpd))))"
proof (cases "filter (\<lambda>s. fpd s \<noteq> None) (samples bask) = []")
  case True
  then show ?thesis
    by (simp add: score_basket_unmatched)
next
  case False
  then obtain clust a where "snd (score_basket bask fpd) = Inr \<lparr>activity = a, cluster = clust\<rparr>"
    using score_basket_matched [of fpd bask] by auto
  with False show ?thesis
    by simp
qed

lemma score_baskets_fails:
  "\<exists>bask \<in> set baskets. filter (\<lambda>s. fpd s \<noteq> None) (samples bask) = [] \<Longrightarrow>
     score_baskets baskets fpd = Inl (KeyError ''No Fingerprints found...'')"
proof (induction baskets)
  case Nil
  then show ?case by simp
next
  case (Cons b rest)
  show ?case
  proof (cases "filter (\<lambda>s. fpd s \<noteq> None) (samples b) = []")
    case True
    then have "snd (score_basket b fpd) = Inl (KeyError ''No Fingerprints found...'')"
      using score_basket_result [of b fpd] by simp
    then show ?thesis
      by simp
  next
    case False
    then obtain sc where ok: "snd (score_basket b fpd) = Inr sc"
      using score_basket_result [of b fpd] by metis
    from False Cons.prems
    have "\<exists>bask \<in> set rest. filter (\<lambda>s. fpd s \<noteq> None) (samples bask) = []"
      by auto
    then have "score_baskets rest fpd = Inl (KeyError ''No Fingerprints found...'')"
      by (rule Cons.IH)
    then show ?thesis
      using ok by simp
  qed
qed

lemma score_baskets_succeeds:
  "\<forall>bask \<in> set baskets. filter (\<lambda>s. fpd s \<noteq> None) (samples bask) \<noteq> [] \<Longrightarrow>
     score_baskets baskets fpd =
       Inr (map (\<lambda>bask. projr (snd (score_basket bask fpd))) baskets)"
proof (induction baskets)
  case Nil
  then show ?case by simp
next
  case (Cons b rest)
  then obtain sc where "snd (score_basket b fpd) = Inr sc"
    using score_basket_result [of b fpd] by (metis list.set_intros(1))
  moreover have "score_baskets rest fpd =
       Inr (map (\<lambda>bask. projr (snd (score_basket bask fpd))) rest)"
    using Cons by simp
  ultimately show ?case
    by simp
qed

lemma score_baskets_length:
  "score_baskets baskets fpd = Inr scores \<Longrightarrow> length scores = length baskets"
  by (induction baskets arbitrary: scores) (auto split: sum.splits)

text \<open>
  C1, as stated, fails: the first basket alone is scored, but when a second basket has
  no sample in the activity table, \<open>score_baskets\<close> raises and returns no score for
  either basket.
\<close>

theorem score_baskets_abort_counterexample:
  "snd (score_basket (example_baskets ! 0) example_table) = Inr \<lparr>activity = 5, cluster = 0\<rparr>
   \<and> score_baskets [example_baskets ! 0, unmatched_basket] example_table
       = Inl (KeyError ''No Fingerprints found...'')"
proof -
  have 1: "snd (score_basket (example_baskets ! 0) example_table)
             = Inr \<lparr>activity = 5, cluster = 0\<rparr>"
    by (simp add: score_basket_def feature_synthetic_fp_def cluster_score_def
        get_samples_fps_def example_baskets_def example_table_def mean_axis0_def
        upt_rec [of 0] upt_rec [of 1])
  have "snd (score_basket unmatched_basket example_table)
          = Inl (KeyError ''No Fingerprints found...'')"
    by (simp add: score_basket_def feature_synthetic_fp_def get_samples_fps_def
        unmatched_basket_def example_table_def)
  with 1 have 2: "score_baskets [example_baskets ! 0, unmatched_basket] example_table
       = Inl (KeyError ''No Fingerprints found...'')"
    by simp
  from 1 2 show ?thesis
    by (rule conjI)
qed

text \<open>
  C1, amended: scoring a basket none of whose samples is a row label of the activity
  table fails with \<open>KeyError("No Fingerprints found...")\<close>; a run that contains such a
  basket fails as a whole with that error, and no basket of it gets a score; a run in
  which every basket has at least one sample in the table returns one score per basket,
  each the score of its basket.
\<close>

theorem score_baskets_no_fingerprint:
  "(filter (\<lambda>s. fpd s \<noteq> None) (samples bask) = [] \<longrightarrow>
      snd (score_basket bask fpd) = Inl (KeyError ''No Fingerprints found...''))
   \<and> ((\<exists>b \<in> set baskets. filter (\<lambda>s. fpd s \<noteq> None) (samples b) = []) \<longrightarrow>
        score_baskets baskets fpd = Inl (KeyError ''No Fingerprints found...''))
   \<and> ((\<forall>b \<in> set baskets. filter (\<lambda>s. fpd s \<noteq> None) (samples b) \<noteq> []) \<longrightarrow>
        (\<exists>scores. score_baskets baskets fpd = Inr scores
           \<and> length scores = length baskets
           \<and> (\<forall>i < length baskets.
                 snd (score_basket (baskets ! i) fpd) = Inr (scores ! i))))"
proof -
  have 1: "filter (\<lambda>s. fpd s \<noteq> None) (samples bask) = [] \<longrightarrow>
      snd (score_basket bask fpd) = Inl (KeyError ''No Fingerprints found...'')"
    by (simp add: score_basket_unmatched)
  have 2: "(\<exists>b \<in> set baskets. filter (\<lambda>s. fpd s \<noteq> None) (samples b) = []) \<longrightarrow>
        score_baskets baskets fpd = Inl (KeyError ''No Fingerprints found...'')"
    using score_baskets_fails by blast
  have 3: "(\<forall>b \<in> set baskets. filter (\<lambda>s. fpd s \<noteq> None) (samples b) \<noteq> []) \<longrightarrow>
        (\<exists>scores. score_baskets baskets fpd = Inr scores
           \<and> length scores = length baskets
           \<and> (\<forall>i < length baskets.
                 snd (score_basket (baskets ! i) fpd) = Inr (scores ! i)))"
  proof
    assume all: "\<forall>b \<in> set baskets. filter (\<lambda>s. fpd s \<noteq> None) (samples b) \<noteq> []"
    define scores where "scores = map (\<lambda>bask. projr (snd (score_basket bask fpd))) baskets"
    have s: "score_baskets baskets fpd = Inr scores"
      unfolding scores_def using all by (rule score_baskets_succeeds)
    have l: "length scores = length baskets"
      by (simp add: scores_def)
    have "snd (score_basket (baskets ! i) fpd) = Inr (scores ! i)" if "i < length baskets" for i
    proof -
      have "filter (\<lambda>s. fpd s \<noteq> None) (samples (baskets ! i)) \<noteq> []"
        using all that by simp
      then show ?thesis
        using score_basket_result [of "baskets ! i" fpd] that by (simp add: scores_def)
    qed
    with s l show "\<exists>scores. score_baskets baskets fpd = Inr scores
           \<and> length scores = length baskets
           \<and> (\<forall>i < length baskets.
                 snd (score_basket (baskets ! i) fpd) = Inr (scores ! i))"
      by blast
  qed
  from 1 2 3 show ?thesis
    by (intro conjI)
qed

theorem score_baskets_no_fingerprint_witness:
  "filter (\<lambda>s. example_table s \<noteq> None) (samples unmatched_basket) = []
   \<and> snd (score_basket unmatched_basket example_table)
       = Inl (KeyError ''No Fingerprints found...'')
   \<and> score_baskets (example_baskets @ [unmatched_basket]) example_table
       = Inl (KeyError ''No Fingerprints found...'')
   \<and> length (projr (score_baskets example_baskets example_table)) = 2"
proof -
  note t = score_baskets_no_fingerprint [where fpd = example_table and bask = unmatched_basket]
  have u: "filter (\<lambda>s. example_table s \<noteq> None) (samples unmatched_basket) = []"
    by (simp add: unmatched_basket_def example_table_def)
  note 1 = t [where baskets = "[]", THEN conjunct1, THEN mp, OF u]
  have e: "\<exists>b \<in> set (example_baskets @ [unmatched_basket]).
             filter (\<lambda>s. example_table s \<noteq> None) (samples b) = []"
    using u by simp
  note 2 = t [where baskets = "example_baskets @ [unmatched_basket]",
      THEN conjunct2, THEN conjunct1, THEN mp, OF e]
  have a: "\<forall>b \<in> set example_baskets. filter (\<lambda>s. example_table s \<noteq> None) (samples b) \<noteq> []"
    by (simp add: example_baskets_def example_table_def)
  from t [where baskets = example_baskets, THEN conjunct2, THEN conjunct2, THEN mp, OF a]
  obtain scores where "score_baskets example_baskets example_table = Inr scores"
    "length scores = length example_baskets"
    by blast
  then have 3: "length (projr (score_baskets example_baskets example_table)) = 2"
    by (simp add: example_baskets_def)
  from u 1 2 3 show ?thesis
    by (intro conjI)
qed

section \<open>The tabular output: properties\<close>

lemma output_rows_ok:
  "i + length baskets \<le> length scores \<Longrightarrow>
   output_rows json_dumps i baskets scores =
     Inr (map (\<lambda>(k, bask).
                 (k, length (samples bask), PrecMz bask, PrecIntensity bask, RetTime bask,
                  json_dumps (sort (samples bask)),
                  activity (scores ! k), cluster (scores ! k)))
            (enumerate i baskets))"
proof (induction baskets arbitrary: i)
  case Nil
  then show ?case by simp
next
  case (Cons b rest)
  then have "i < length scores" "Suc i + length rest \<le> length scores"
    by simp_all
  then show ?case
    using Cons.IH [of "Suc i"] by (simp add: Let_def)
qed

lemma sort_example: "sort [''B'', ''A''] = [''A'', ''B'']"
  by code_simp

text \<open>
  C9: when \<open>score_baskets\<close> has returned the scores of the baskets, the output table
  has the columns BasketID, Frequency, PrecMz, PrecIntensity, RetTime, SampleList,
  ACTIVITY_SCORE, CLUSTER_SCORE in that order and one row per basket, in the order of
  the baskets: the index of the basket, the number of its samples, its three
  measurements, the serialised sorted list of its samples and its two scores.  The
  sorted list is ascending and has the samples of the basket, each once; the number
  of samples is the number of distinct samples.
\<close>

theorem create_output_table_rows:
  assumes "score_baskets baskets fpd = Inr scores"
    and "\<forall>bask \<in> set baskets. distinct (samples bask)"
  shows "create_output_table json_dumps baskets scores =
           Inr ([''BasketID'', ''Frequency'', ''PrecMz'', ''PrecIntensity'', ''RetTime'',
                 ''SampleList'', ''ACTIVITY_SCORE'', ''CLUSTER_SCORE''],
                map (\<lambda>(i, bask).
                       (i, length (samples bask), PrecMz bask, PrecIntensity bask, RetTime bask,
                        json_dumps (sort (samples bask)),
                        activity (scores ! i), cluster (scores ! i)))
                  (enumerate 0 baskets))
         \<and> (\<forall>bask \<in> set baskets.
               length (samples bask) = card (set (samples bask))
             \<and> sorted (sort (samples bask))
             \<and> distinct (sort (samples bask))
             \<and> set (sort (samples bask)) = set (samples bask))"
proof -
  have "length scores = length baskets"
    using assms(1) by (rule score_baskets_length)
  then have "output_rows json_dumps 0 baskets scores =
     Inr (map (\<lambda>(k, bask).
                 (k, length (samples bask), PrecMz bask, PrecIntensity bask, RetTime bask,
                  json_dumps (sort (samples bask)),
                  activity (scores ! k), cluster (scores ! k)))
            (enumerate 0 baskets))"
    by (intro output_rows_ok) simp
  then have 1: "create_output_table json_dumps baskets scores =
           Inr ([''BasketID'', ''Frequency'', ''PrecMz'', ''PrecIntensity'', ''RetTime'',
                 ''SampleList'', ''ACTIVITY_SCORE'', ''CLUSTER_SCORE''],
                map (\<lambda>(i, bask).
                       (i, length (samples bask), PrecMz bask, PrecIntensity bask, RetTime bask,
                        json_dumps (sort (samples bask)),
                        activity (scores ! i), cluster (scores ! i)))
                  (enumerate 0 baskets))"
    by (simp add: create_output_table_def columns_def)
  have 2: "\<forall>bask \<in> set baskets.
               length (samples bask) = card (set (samples bask))
             \<and> sorted (sort (samples bask))
             \<and> distinct (sort (samples bask))
             \<and> set (sort (samples bask)) = set (samples bask)"
    using assms(2) by (simp add: distinct_card)
  from 1 2 show ?thesis
    by (rule conjI)
qed

theorem create_output_table_rows_witness:
  "distinct (samples (example_baskets ! 0)) \<and> distinct (samples (example_baskets ! 1))
   \<and> map (\<lambda>(bid, frequency, mz, intensity, rt, samplelist, scores). (bid, frequency, samplelist))
       (snd (projr (create_output_table join_semicolon example_baskets
                      (projr (score_baskets example_baskets example_table)))))
     = [(0, 1, ''A''), (1, 2, ''A;B'')]"
proof -
  have d: "\<forall>bask \<in> set example_baskets. distinct (samples bask)"
    by (simp add: example_baskets_def)
  have a: "\<forall>b \<in> set example_baskets. filter (\<lambda>s. example_table s \<noteq> None) (samples b) \<noteq> []"
    by (simp add: example_baskets_def example_table_def)
  define scores where
    "scores = map (\<lambda>bask. projr (snd (score_basket bask example_table))) example_baskets"
  have s: "score_baskets example_baskets example_table = Inr scores"
    unfolding scores_def using a by (rule score_baskets_succeeds)
  note t = create_output_table_rows [OF s d, of join_semicolon, THEN conjunct1]
  have "map (\<lambda>(bid, frequency, mz, intensity, rt, samplelist, scores).
              (bid, frequency, samplelist))
       (snd (projr (create_output_table join_semicolon example_baskets scores)))
     = [(0, 1, ''A''), (1, 2, ''A;B'')]"
    unfolding t by (simp add: example_baskets_def sort_example)
  moreover have "distinct (samples (example_baskets ! 0))"
    "distinct (samples (example_baskets ! 1))"
    by (simp_all add: example_baskets_def)
  ultimately show ?thesis
    using s by simp
qed

section \<open>Basketing and replicate processing: properties\<close>







lemma replicate_compare_sample_files:
  "replicate_compare_sample m c s ps cfg files =
     (case replicate_compare_sample m c s ps cfg Map.empty of
        Inl e \<Rightarrow> Inl e
      | Inr out \<Rightarrow> Inr (files ++ out))"
  by (auto simp: replicate_compare_sample_def split: sum.splits)

lemma replicate_compare_sample_writes:
  "replicate_compare_sample m c s ps cfg files = Inr files' \<Longrightarrow>
     files' (s @ ''_replicated.csv'') \<noteq> None \<and> dom files \<subseteq> dom files'"
  by (auto simp: replicate_compare_sample_def split: sum.splits)

lemma process_replicates_dom:
  "dom files \<subseteq> dom (fst (process_replicates m c xs cfg files))"
proof (induction xs arbitrary: files)
  case Nil
  then show ?case by simp
next
  case (Cons x xs)
  obtain s ps where x: "x = (s, ps)"
    by (cases x)
  show ?case
  proof (cases "replicate_compare_sample m c s ps cfg files")
    case (Inl e)
    then show ?thesis
      using x by simp
  next
    case (Inr files')
    then have "dom files \<subseteq> dom files'"
      using replicate_compare_sample_writes by blast
    moreover have "dom files' \<subseteq> dom (fst (process_replicates m c xs cfg files'))"
      by (rule Cons.IH)
    ultimately show ?thesis
      using x Inr by auto
  qed
qed

lemma process_replicates_stops:
  assumes "\<forall>(s, ps) \<in> set pre. \<exists>out. replicate_compare_sample m c s ps cfg Map.empty = Inr out"
    and "replicate_compare_sample m c sample paths cfg Map.empty = Inl e"
  shows "process_replicates m c (pre @ (sample, paths) # post) cfg files =
           (fst (process_replicates m c pre cfg files), Some e)
         \<and> snd (process_replicates m c pre cfg files) = None"
  using assms(1)
proof (induction pre arbitrary: files)
  case Nil
  have "replicate_compare_sample m c sample paths cfg files = Inl e"
    using assms(2) replicate_compare_sample_files [of m c sample paths cfg files] by simp
  then show ?case
    by simp
next
  case (Cons x pre)
  obtain s ps where x: "x = (s, ps)"
    by (cases x)
  from Cons.prems x obtain out where "replicate_compare_sample m c s ps cfg Map.empty = Inr out"
    by auto
  then have "replicate_compare_sample m c s ps cfg files = Inr (files ++ out)"
    using replicate_compare_sample_files [of m c s ps cfg files] by simp
  moreover have "\<forall>(s, ps) \<in> set pre.
      \<exists>out. replicate_compare_sample m c s ps cfg Map.empty = Inr out"
    using Cons.prems by simp
  ultimately show ?case
    using Cons.IH [of "files ++ out"] x by simp
qed

lemma process_replicates_all:
  assumes "\<forall>(s, ps) \<in> set xs. \<exists>out. replicate_compare_sample m c s ps cfg Map.empty = Inr out"
  shows "snd (process_replicates m c xs cfg files) = None
         \<and> (\<forall>(s, ps) \<in> set xs.
               fst (process_replicates m c xs cfg files) (s @ ''_replicated.csv'') \<noteq> None)"
  using assms
proof (induction xs arbitrary: files)
  case Nil
  then show ?case by simp
next
  case (Cons x xs)
  obtain s ps where x: "x = (s, ps)"
    by (cases x)
  from Cons.prems x obtain out where "replicate_compare_sample m c s ps cfg Map.empty = Inr out"
    by auto
  then have r: "replicate_compare_sample m c s ps cfg files = Inr (files ++ out)"
    using replicate_compare_sample_files [of m c s ps cfg files] by simp
  have rest: "\<forall>(s, ps) \<in> set xs.
      \<exists>out. replicate_compare_sample m c s ps cfg Map.empty = Inr out"
    using Cons.prems by simp
  note ih = Cons.IH [OF rest, of "files ++ out"]
  have "(files ++ out) (s @ ''_replicated.csv'') \<noteq> None"
    using replicate_compare_sample_writes [OF r] by simp
  then have "fst (process_replicates m c xs cfg (files ++ out)) (s @ ''_replicated.csv'') \<noteq> None"
    using process_replicates_dom [of "files ++ out" m c xs cfg] by (auto simp: dom_def)
  with ih show ?case
    using x r by simp
qed

text \<open>
  C8, as stated, fails: the file of the first sample cannot be read, and the second
  sample, which is processed without error when it is alone, is never processed: the
  call ends with the error of the first sample and has written nothing.
\<close>

theorem process_replicates_abort_counterexample:
  "process_replicates example_mzml_to_df example_consolidate
     [(''S1'', [''bad.mzml'']), (''S2'', [''ok.mzml''])] example_config Map.empty
     = (Map.empty, Some (IOError ''bad.mzml''))
   \<and> fst (process_replicates example_mzml_to_df example_consolidate
            [(''S2'', [''ok.mzml''])] example_config Map.empty) ''S2_replicated.csv'' = Some 1"
  by (simp add: replicate_compare_sample_def example_mzml_to_df_def example_consolidate_def)

text \<open>
  C8, amended: \<open>process_replicates\<close> does not isolate a failure.  When the samples are
  processed in order and one of them fails while those before it succeed, the call
  ends with the error of that sample; the files written are those of the samples
  before it, and neither the failing sample nor any sample after it is processed.
  When no sample fails, the call ends without error and every sample has its
  consolidated output.
\<close>

theorem process_replicates_failure:
  "((\<forall>(s, ps) \<in> set pre. \<exists>out. replicate_compare_sample m c s ps cfg Map.empty = Inr out)
      \<and> replicate_compare_sample m c sample paths cfg Map.empty = Inl e \<longrightarrow>
        process_replicates m c (pre @ (sample, paths) # post) cfg files =
          (fst (process_replicates m c pre cfg files), Some e)
        \<and> snd (process_replicates m c pre cfg files) = None)
   \<and> ((\<forall>(s, ps) \<in> set xs. \<exists>out. replicate_compare_sample m c s ps cfg Map.empty = Inr out) \<longrightarrow>
        snd (process_replicates m c xs cfg files) = None
        \<and> (\<forall>(s, ps) \<in> set xs.
              fst (process_replicates m c xs cfg files) (s @ ''_replicated.csv'') \<noteq> None))"
  using process_replicates_stops [of pre m c cfg sample paths e post files]
    process_replicates_all [of xs m c cfg files]
  by blast

theorem process_replicates_failure_witness:
  "replicate_compare_sample example_mzml_to_df example_consolidate ''S2'' [''bad.mzml'']
      example_config Map.empty = Inl (IOError ''bad.mzml'')
   \<and> process_replicates example_mzml_to_df example_consolidate
        ([(''S1'', [''a.mzml'', ''b.mzml''])] @ (''S2'', [''bad.mzml'']) # [(''S3'', [''ok.mzml''])])
        example_config Map.empty
      = ([''S1_replicated.csv'' \<mapsto> 2], Some (IOError ''bad.mzml''))"
proof -
  have p: "\<forall>(s, ps) \<in> set [(''S1'', [''a.mzml'', ''b.mzml''])].
      \<exists>out. replicate_compare_sample example_mzml_to_df example_consolidate s ps
               example_config Map.empty = Inr out"
    by (simp add: replicate_compare_sample_def example_mzml_to_df_def example_consolidate_def)
  have f: "replicate_compare_sample example_mzml_to_df example_consolidate ''S2'' [''bad.mzml'']
      example_config Map.empty = Inl (IOError ''bad.mzml'')"
    by (simp add: replicate_compare_sample_def example_mzml_to_df_def)
  have pre: "fst (process_replicates example_mzml_to_df example_consolidate
      [(''S1'', [''a.mzml'', ''b.mzml''])] example_config Map.empty)
      = [''S1_replicated.csv'' \<mapsto> 2]"
    by (simp add: replicate_compare_sample_def example_mzml_to_df_def example_consolidate_def
        numeral_2_eq_2)
  note t = process_replicates_failure [where pre = "[(''S1'', [''a.mzml'', ''b.mzml''])]"
      and m = example_mzml_to_df and c = example_consolidate and cfg = example_config
      and sample = "''S2''" and paths = "[''bad.mzml'']" and e = "IOError ''bad.mzml''"
      and post = "[(''S3'', [''ok.mzml''])]" and files = Map.empty and xs = "[]",
      THEN conjunct1, THEN mp, OF conjI [OF p f], THEN conjunct1]
  from f t show ?thesis
    unfolding pre by (rule conjI)
qed

section \<open>The cluster score: properties\<close>

lemma filter_less_upt: "filter (\<lambda>k. i < k) [0..<j] = [Suc i..<j]"
proof (induction j)
  case 0
  then show ?case by simp
next
  case (Suc j)
  then show ?case
    by (cases "i < j") auto
qed

lemma triu_indices_filter:
  "triu_indices j = filter (\<lambda>(i, k). i < k) (List.product [0..<j] [0..<j])"
proof -
  have "filter (\<lambda>(i, k). i < k) (List.product xs [0..<j]) =
          concat (map (\<lambda>i. map (\<lambda>k. (i, k)) [Suc i..<j]) xs)" for xs
    by (induction xs) (simp_all add: filter_map comp_def filter_less_upt)
  then show ?thesis
    by (simp add: triu_indices_def)
qed

lemma distinct_triu_indices: "distinct (triu_indices j)"
  by (simp add: triu_indices_filter distinct_product)

lemma distinct_offdiag_indices: "distinct (offdiag_indices j)"
  by (simp add: offdiag_indices_def distinct_product)

lemma set_triu_indices: "set (triu_indices j) = {(i, k). i < k \<and> k < j}"
  by (auto simp: triu_indices_filter)

lemma set_offdiag_indices:
  "set (offdiag_indices j) = set (triu_indices j) \<union> prod.swap ` set (triu_indices j)"
  by (auto simp: offdiag_indices_def set_triu_indices image_iff)

lemma offdiag_sum:
  fixes f :: "nat \<times> nat \<Rightarrow> real"
  assumes "\<And>i k. i < j \<Longrightarrow> k < j \<Longrightarrow> f (k, i) = f (i, k)"
  shows "sum_list (map f (offdiag_indices j)) = 2 * sum_list (map f (triu_indices j))"
proof -
  let ?U = "set (triu_indices j)"
  have fin: "finite ?U"
    by simp
  have disj: "?U \<inter> prod.swap ` ?U = {}"
    by (auto simp: set_triu_indices)
  have "sum f (prod.swap ` ?U) = sum (f \<circ> prod.swap) ?U"
    by (rule sum.reindex) (auto simp: inj_on_def)
  also have "\<dots> = sum f ?U"
    by (rule sum.cong) (auto simp: set_triu_indices assms)
  finally have swap: "sum f (prod.swap ` ?U) = sum f ?U" .
  have "sum_list (map f (offdiag_indices j)) = sum f (set (offdiag_indices j))"
    using distinct_offdiag_indices by (rule sum_list_distinct_conv_sum_set)
  also have "\<dots> = sum f ?U + sum f (prod.swap ` ?U)"
    unfolding set_offdiag_indices using fin disj by (intro sum.union_disjoint) simp_all
  also have "\<dots> = 2 * sum f ?U"
    using swap by simp
  also have "sum f ?U = sum_list (map f (triu_indices j))"
    using distinct_triu_indices by (rule sum_list_distinct_conv_sum_set [symmetric])
  finally show ?thesis .
qed

lemma length_offdiag_indices:
  "real (length (offdiag_indices j)) = 2 * real (length (triu_indices j))"
  using offdiag_sum [of j "\<lambda>_. 1"] by (simp add: sum_list_triv)

lemma length_triu_indices: "2 * length (triu_indices j) = j * j - j"
proof -
  have len: "length (triu_indices j) = (\<Sum>i\<leftarrow>[0..<j]. j - Suc i)"
    by (simp add: triu_indices_def length_concat comp_def)
  have "2 * (\<Sum>i\<leftarrow>[0..<n]. n - Suc i) = n * n - n" for n
  proof (induction n)
    case 0
    then show ?case by simp
  next
    case (Suc n)
    have "(\<Sum>i\<leftarrow>[0..<Suc n]. Suc n - Suc i) = (\<Sum>i\<leftarrow>[0..<n]. n - i)"
      by simp
    also have "\<dots> = (\<Sum>i\<leftarrow>[0..<n]. (n - Suc i) + 1)"
      by (rule arg_cong [where f = sum_list], rule map_cong) auto
    also have "\<dots> = (\<Sum>i\<leftarrow>[0..<n]. n - Suc i) + (\<Sum>i\<leftarrow>[0..<n]. 1)"
      by (rule sum_list_addf)
    also have "\<dots> = (\<Sum>i\<leftarrow>[0..<n]. n - Suc i) + n"
      by (simp add: sum_list_triv)
    finally show ?case
      using Suc by (simp add: algebra_simps)
  qed
  with len show ?thesis
    by simp
qed

lemma real_length_triu_indices:
  "real (length (triu_indices j)) = (real j ^ 2 - real j) / 2"
proof -
  have "j \<le> j * j"
    by (cases j) simp_all
  then have "real (j * j - j) = real j * real j - real j"
    by (simp add: of_nat_diff)
  moreover have "real (2 * length (triu_indices j)) = real (j * j - j)"
    using length_triu_indices by simp
  ultimately show ?thesis
    by (simp add: power2_eq_square)
qed

lemma dot_commute: "dot xs ys = dot ys xs"
proof (induction xs arbitrary: ys)
  case Nil
  then show ?case by (simp add: dot_def)
next
  case (Cons x xs)
  then show ?case
    by (cases ys) (simp_all add: dot_def mult.commute)
qed

lemma dot_Nil [simp]: "dot [] ys = 0" "dot xs [] = 0"
  by (simp_all add: dot_def)

lemma pearson_commute: "pearson xs ys = pearson ys xs"
proof (cases "xs = [] \<or> ys = []")
  case True
  then show ?thesis
    by (auto simp: pearson_def centred_def Let_def)
next
  case False
  then have "\<not> length xs < 1" "\<not> length ys < 1"
    by (simp_all add: less_Suc_eq_0_disj)
  then show ?thesis
    unfolding pearson_def Let_def
    by (simp add: dot_commute [of "centred xs" "centred ys"] mult.commute)
qed

lemma corr_pearson_nth:
  "i < length fps \<Longrightarrow> k < length fps \<Longrightarrow>
     corr_pearson fps ! i ! k = pearson (fps ! i) (fps ! k)"
  by (simp add: corr_pearson_def)
lemma nansum_map:
  "nansum (map g xs) = sum_list (map (\<lambda>x. nan_to_zero (g x)) xs)"
  by (simp add: nansum_def comp_def)

lemma cluster_score_eq:
  assumes "fps = map (\<lambda>s. the (fpd s)) (filter (\<lambda>s. fpd s \<noteq> None) samps)"
    and "fps \<noteq> []"
  shows "snd (cluster_score fpd samps) =
     (if length fps = 1 then Inr 0
      else Inr (nansum (map (\<lambda>(i, k). corr_pearson fps ! i ! k) (triu_indices (length fps)))
                / ((real (length fps) ^ 2 - real (length fps)) / 2)))"
proof -
  have "filter (\<lambda>s. fpd s \<noteq> None) samps \<noteq> []"
    using assms by auto
  then show ?thesis
    unfolding assms(1) by (simp add: cluster_score_def get_samples_fps_eq Let_def)
qed

lemma pearson_examples:
  "pearson [1, 2] [3, 4] = Some 1" "pearson [3, 4] [1, 2] = Some 1"
  "pearson [1, 2] [5, 5] = None" "pearson [5, 5] [1, 2] = None"
  "pearson [3, 4] [5, 5] = None" "pearson [5, 5] [3, 4] = None"
  by (simp_all add: pearson_def centred_def mean_def dot_def Let_def real_sqrt_divide)

text \<open>
  C2: let \<open>fps\<close> be the fingerprints of the samples of the basket that are found in the
  activity table, \<open>j\<close> their number and \<open>corr\<close> their matrix of pairwise Pearson
  correlations.  When \<open>j\<close> is 1 the cluster score is 0 and nothing is divided.  When
  \<open>j\<close> is at least 2 it is the sum of the entries of \<open>corr\<close> off the diagonal, a NaN
  counting as 0, divided by the number of all these entries, which is \<open>j * j - j\<close>.
\<close>

theorem cluster_score_mean_offdiag:
  assumes "fps = map (\<lambda>s. the (fpd s)) (filter (\<lambda>s. fpd s \<noteq> None) samps)"
    and "j = length fps"
  shows "(j = 1 \<longrightarrow> snd (cluster_score fpd samps) = Inr 0)
    \<and> (2 \<le> j \<longrightarrow>
         snd (cluster_score fpd samps) =
           Inr (nansum (map (\<lambda>(i, k). corr_pearson fps ! i ! k) (offdiag_indices j))
                / real (length (offdiag_indices j)))
         \<and> length (offdiag_indices j) = j * j - j
         \<and> (\<forall>(i, k) \<in> set (offdiag_indices j).
               corr_pearson fps ! i ! k = pearson (fps ! i) (fps ! k)))"
proof -
  have one: "j = 1 \<longrightarrow> snd (cluster_score fpd samps) = Inr 0"
  proof
    assume "j = 1"
    then have "fps \<noteq> []" "length fps = 1"
      using assms(2) by auto
    then show "snd (cluster_score fpd samps) = Inr 0"
      using cluster_score_eq [OF assms(1)] by simp
  qed
  have many: "2 \<le> j \<longrightarrow>
         snd (cluster_score fpd samps) =
           Inr (nansum (map (\<lambda>(i, k). corr_pearson fps ! i ! k) (offdiag_indices j))
                / real (length (offdiag_indices j)))
         \<and> length (offdiag_indices j) = j * j - j
         \<and> (\<forall>(i, k) \<in> set (offdiag_indices j).
               corr_pearson fps ! i ! k = pearson (fps ! i) (fps ! k))"
  proof
    assume j2: "2 \<le> j"
    then have ne: "fps \<noteq> []" and n1: "length fps \<noteq> 1"
      using assms(2) by auto
    define f where "f = (\<lambda>(i, k). nan_to_zero (corr_pearson fps ! i ! k))"
    have sym: "f (k, i) = f (i, k)" if "i < j" "k < j" for i k
      using that assms(2) by (simp add: f_def corr_pearson_nth pearson_commute [of "fps ! k"])
    have off: "sum_list (map f (offdiag_indices j)) = 2 * sum_list (map f (triu_indices j))"
      using sym by (rule offdiag_sum)
    have nan_off: "nansum (map (\<lambda>(i, k). corr_pearson fps ! i ! k) (offdiag_indices j))
                    = sum_list (map f (offdiag_indices j))"
      by (simp add: nansum_map f_def split_def)
    have nan_triu: "nansum (map (\<lambda>(i, k). corr_pearson fps ! i ! k) (triu_indices j))
                    = sum_list (map f (triu_indices j))"
      by (simp add: nansum_map f_def split_def)
    have len: "real (length (offdiag_indices j)) = real j ^ 2 - real j"
      by (simp add: length_offdiag_indices real_length_triu_indices)
    have "snd (cluster_score fpd samps) =
            Inr (sum_list (map f (triu_indices j)) / ((real j ^ 2 - real j) / 2))"
      using cluster_score_eq [OF assms(1) ne] n1 assms(2) nan_triu by simp
    also have "sum_list (map f (triu_indices j)) / ((real j ^ 2 - real j) / 2)
                 = sum_list (map f (offdiag_indices j)) / real (length (offdiag_indices j))"
      unfolding off len by simp
    finally have 1: "snd (cluster_score fpd samps) =
           Inr (nansum (map (\<lambda>(i, k). corr_pearson fps ! i ! k) (offdiag_indices j))
                / real (length (offdiag_indices j)))"
      unfolding nan_off .
    have "2 * length (triu_indices j) = length (offdiag_indices j)"
      using length_offdiag_indices [of j] by linarith
    then have 2: "length (offdiag_indices j) = j * j - j"
      using length_triu_indices [of j] by simp
    have 3: "\<forall>(i, k) \<in> set (offdiag_indices j).
               corr_pearson fps ! i ! k = pearson (fps ! i) (fps ! k)"
      using assms(2) by (auto simp: offdiag_indices_def corr_pearson_nth)
    from 1 2 3 show "snd (cluster_score fpd samps) =
           Inr (nansum (map (\<lambda>(i, k). corr_pearson fps ! i ! k) (offdiag_indices j))
                / real (length (offdiag_indices j)))
         \<and> length (offdiag_indices j) = j * j - j
         \<and> (\<forall>(i, k) \<in> set (offdiag_indices j).
               corr_pearson fps ! i ! k = pearson (fps ! i) (fps ! k))"
      by (intro conjI)
  qed
  from one many show ?thesis
    by (rule conjI)
qed

theorem cluster_score_mean_offdiag_witness:
  "snd (cluster_score example_table [''A'', ''Z'', ''B'', ''C'']) = Inr (1 / 3)
   \<and> nansum (map (\<lambda>(i, k). corr_pearson [[1, 2], [3, 4], [5, 5]] ! i ! k) (offdiag_indices 3)) = 2
   \<and> length (offdiag_indices 3) = 6
   \<and> snd (cluster_score example_table [''Z'', ''B'']) = Inr 0"
proof -
  have fps: "[[1, 2], [3, 4], [5, 5]] = map (\<lambda>s. the (example_table s))
      (filter (\<lambda>s. example_table s \<noteq> None) [''A'', ''Z'', ''B'', ''C''])"
    by (simp add: example_table_def)
  have j: "3 = length [[1, 2], [3, 4], [5::real, 5]]"
    by simp
  have j2: "(2::nat) \<le> 3"
    by simp
  note t = cluster_score_mean_offdiag [OF fps j, THEN conjunct2, THEN mp, OF j2]
  have idx: "offdiag_indices 3 = [(0, 1), (0, 2), (1, 0), (1, 2), (2, 0), (2, 1)]"
    by code_simp
  have s: "nansum (map (\<lambda>(i, k). corr_pearson [[1, 2], [3, 4], [5, 5]] ! i ! k)
              (offdiag_indices 3)) = 2"
    unfolding idx
    by (simp add: nansum_def nan_to_zero_def corr_pearson_def pearson_examples)
  have l: "length (offdiag_indices 3) = 6"
    unfolding idx by simp
  have 1: "snd (cluster_score example_table [''A'', ''Z'', ''B'', ''C'']) = Inr (1 / 3)"
    using t [THEN conjunct1] unfolding s l by simp
  have fps1: "[[3, 4]] = map (\<lambda>s. the (example_table s))
      (filter (\<lambda>s. example_table s \<noteq> None) [''Z'', ''B''])"
    by (simp add: example_table_def)
  have j1: "1 = length [[3, 4::real]]"
    by simp
  note 2 = cluster_score_mean_offdiag [OF fps1 j1, THEN conjunct1, THEN mp, OF refl]
  from 1 s l 2 show ?thesis
    by (intro conjI)
qed

lemma dot_square_expand:
  "length xs = length ys \<Longrightarrow>
     sum_list (map (\<lambda>(x, y). (p * x - q * y) ^ 2) (zip xs ys)) =
       p ^ 2 * dot xs xs - 2 * p * q * dot xs ys + q ^ 2 * dot ys ys"
proof (induction xs ys rule: list_induct2)
  case Nil
  then show ?case by (simp add: dot_def)
next
  case (Cons x xs y ys)
  then show ?case
    by (simp add: dot_def power2_eq_square algebra_simps)
qed

lemma sum_list_squares_nonneg:
  fixes p q :: real
  shows "0 \<le> sum_list (map (\<lambda>(x, y). (p * x - q * y) ^ 2) zs)"
  by (induction zs) auto

lemma dot_square_nonneg:
  fixes p q :: real
  shows "0 \<le> sum_list (map (\<lambda>(x, y). (p * x - q * y) ^ 2) (zip xs ys))"
  using sum_list_squares_nonneg [of p q "zip xs ys"] .

lemma dot_self_nonneg: "0 \<le> dot xs xs"
  by (induction xs) (simp_all add: dot_def)

lemma cauchy_schwarz_dot:
  assumes "length xs = length ys"
  shows "(dot xs ys) ^ 2 \<le> dot xs xs * dot ys ys"
proof -
  define A where "A = dot xs xs"
  define B where "B = dot ys ys"
  define C where "C = dot xs ys"
  have quad: "0 \<le> p ^ 2 * A - 2 * p * q * C + q ^ 2 * B" for p q
    using dot_square_nonneg [of p q xs ys] dot_square_expand [OF assms, of p q]
    by (simp add: A_def B_def C_def)
  have A0: "0 \<le> A" and B0: "0 \<le> B"
    unfolding A_def B_def by (rule dot_self_nonneg)+
  show ?thesis
  proof (cases "B = 0")
    case True
    have "C = 0"
    proof (rule ccontr)
      assume c: "C \<noteq> 0"
      have "0 \<le> A - 2 * ((A + 1) / (2 * C)) * C"
        using quad [of 1 "(A + 1) / (2 * C)"] True by simp
      moreover have "2 * ((A + 1) / (2 * C)) * C = A + 1"
        using c by simp
      ultimately show False
        by simp
    qed
    then show ?thesis
      using True A0 by (simp add: A_def B_def C_def)
  next
    case False
    then have Bpos: "0 < B"
      using B0 by simp
    have "0 \<le> B ^ 2 * A - 2 * B * C * C + C ^ 2 * B"
      using quad [of B C] .
    also have "B ^ 2 * A - 2 * B * C * C + C ^ 2 * B = B * (A * B - C ^ 2)"
      by (simp add: power2_eq_square algebra_simps)
    finally have "0 \<le> A * B - C ^ 2"
      using Bpos by (simp add: zero_le_mult_iff)
    then show ?thesis
      by (simp add: A_def B_def C_def)
  qed
qed

lemma pearson_bounds:
  assumes "length xs = length ys" and "pearson xs ys = Some r"
  shows "- 1 \<le> r \<and> r \<le> 1"
proof -
  define A where "A = dot (centred xs) (centred xs)"
  define B where "B = dot (centred ys) (centred ys)"
  define C where "C = dot (centred xs) (centred ys)"
  from assms(2) have d: "sqrt (A * B) \<noteq> 0" and r: "r = C / sqrt (A * B)"
    unfolding pearson_def Let_def A_def B_def C_def by (auto split: if_splits)
  have "length (centred xs) = length (centred ys)"
    using assms(1) by (simp add: centred_def)
  then have "C ^ 2 \<le> A * B"
    unfolding A_def B_def C_def by (rule cauchy_schwarz_dot)
  then have "sqrt (C ^ 2) \<le> sqrt (A * B)"
    by (rule real_sqrt_le_mono)
  then have abs: "\<bar>C\<bar> \<le> sqrt (A * B)"
    by simp
  then have pos: "0 < sqrt (A * B)"
    using d by linarith
  have "\<bar>r\<bar> = \<bar>C\<bar> / sqrt (A * B)"
    using pos by (simp add: r)
  also have "\<dots> \<le> 1"
    using abs pos by simp
  finally show ?thesis
    by linarith
qed

lemma nan_to_zero_pearson_bounds:
  "length xs = length ys \<Longrightarrow> \<bar>nan_to_zero (pearson xs ys)\<bar> \<le> 1"
  using pearson_bounds [of xs ys]
  by (cases "pearson xs ys") (auto simp: nan_to_zero_def)

lemma sum_list_abs_bound:
  fixes g :: "'a \<Rightarrow> real"
  shows "\<forall>x \<in> set xs. \<bar>g x\<bar> \<le> 1 \<Longrightarrow> \<bar>sum_list (map g xs)\<bar> \<le> real (length xs)"
proof (induction xs)
  case Nil
  then show ?case by simp
next
  case (Cons x xs)
  then have "\<bar>g x\<bar> \<le> 1" "\<bar>sum_list (map g xs)\<bar> \<le> real (length xs)"
    by simp_all
  then show ?case
    by simp
qed

lemma cluster_score_in_range:
  assumes "table_width fpd m"
    and "snd (cluster_score fpd samps) = Inr c"
  shows "- 1 \<le> c \<and> c \<le> 1
         \<and> (length (filter (\<lambda>s. fpd s \<noteq> None) samps) = 1 \<longrightarrow> c = 0)"
proof -
  define found where "found = filter (\<lambda>s. fpd s \<noteq> None) samps"
  define fps where "fps = map (\<lambda>s. the (fpd s)) found"
  define j where "j = length fps"
  have ne: "fps \<noteq> []"
    using assms(2) unfolding fps_def found_def
    by (auto simp: cluster_score_def get_samples_fps_eq split: if_splits)
  have width: "length (fps ! i) = m" if "i < j" for i
  proof -
    have "found ! i \<in> set found"
      using that by (simp add: j_def fps_def)
    then have "fpd (found ! i) \<noteq> None"
      by (simp add: found_def)
    then have "length (the (fpd (found ! i))) = m"
      using assms(1) unfolding table_width_def by auto
    then show ?thesis
      using that by (simp add: fps_def j_def)
  qed
  note eq = cluster_score_eq [OF fps_def [unfolded found_def] ne]
  show ?thesis
  proof (cases "j = 1")
    case True
    then have "c = 0"
      using eq assms(2) by (simp add: j_def)
    then show ?thesis
      by simp
  next
    case False
    moreover have "j \<noteq> 0"
      using ne by (simp add: j_def)
    ultimately have j2: "2 \<le> j"
      by linarith
    define f where "f = (\<lambda>(i, k). nan_to_zero (corr_pearson fps ! i ! k))"
    have c: "c = sum_list (map f (triu_indices j)) / ((real j ^ 2 - real j) / 2)"
      using eq assms(2) False by (simp add: j_def nansum_map f_def split_def)
    have "\<forall>x \<in> set (triu_indices j). \<bar>f x\<bar> \<le> 1"
    proof
      fix x
      assume "x \<in> set (triu_indices j)"
      then obtain i k where x: "x = (i, k)" and ik: "i < j" "k < j"
        by (auto simp: set_triu_indices)
      then have "f x = nan_to_zero (pearson (fps ! i) (fps ! k))"
        by (simp add: f_def corr_pearson_nth j_def)
      moreover have "length (fps ! i) = length (fps ! k)"
        using width ik by simp
      ultimately show "\<bar>f x\<bar> \<le> 1"
        using nan_to_zero_pearson_bounds by simp
    qed
    then have "\<bar>sum_list (map f (triu_indices j))\<bar> \<le> real (length (triu_indices j))"
      by (rule sum_list_abs_bound)
    then have b: "\<bar>sum_list (map f (triu_indices j))\<bar> \<le> (real j ^ 2 - real j) / 2"
      by (simp add: real_length_triu_indices)
    define D where "D = (real j ^ 2 - real j) / 2"
    define T where "T = sum_list (map f (triu_indices j))"
    have "real j * 2 \<le> real j * real j"
      using j2 by (simp add: mult_left_mono)
    then have pos: "0 < D"
      using j2 by (simp add: D_def power2_eq_square)
    have b': "\<bar>T\<bar> \<le> D"
      using b by (simp add: D_def T_def)
    have "\<bar>c\<bar> = \<bar>T / D\<bar>"
      by (simp add: c D_def T_def)
    also have "\<dots> = \<bar>T\<bar> / D"
      using pos by (simp add: abs_divide)
    also have "\<dots> \<le> 1"
      using b' pos by simp
    finally have "\<bar>c\<bar> \<le> 1" .
    moreover have "length (filter (\<lambda>s. fpd s \<noteq> None) samps) \<noteq> 1"
      using False by (simp add: j_def fps_def found_def)
    ultimately show ?thesis
      by (simp add: abs_le_iff)
  qed
qed

lemma score_basket_cluster:
  "snd (score_basket bask fpd) = Inr sc \<Longrightarrow>
     snd (cluster_score fpd (samples bask)) = Inr (cluster sc)"
  by (auto simp: score_basket_def Let_def split: prod.splits sum.splits)

text \<open>
  C3: for a basket that is scored against an activity table (a data frame, whose rows
  all have the same width), the cluster score lies between -1 and 1, and it is 0 when
  exactly one sample of the basket is found in the table.
\<close>

theorem cluster_score_bounds:
  assumes "table_width fpd m"
    and "snd (score_basket bask fpd) = Inr sc"
  shows "- 1 \<le> cluster sc \<and> cluster sc \<le> 1
         \<and> (length (filter (\<lambda>s. fpd s \<noteq> None) (samples bask)) = 1 \<longrightarrow> cluster sc = 0)"
  using cluster_score_in_range [OF assms(1) score_basket_cluster [OF assms(2)]] .
theorem cluster_score_bounds_witness:
  "table_width example_table 2
   \<and> snd (score_basket mixed_basket example_table) = Inr \<lparr>activity = 13, cluster = 1\<rparr>
   \<and> - 1 \<le> cluster \<lparr>activity = 13, cluster = 1\<rparr>
   \<and> cluster \<lparr>activity = 13, cluster = 1\<rparr> \<le> 1
   \<and> snd (score_basket (example_baskets ! 0) example_table) = Inr \<lparr>activity = 5, cluster = 0\<rparr>"
proof -
  have w: "table_width example_table 2"
    by (auto simp: table_width_def example_table_def split: if_splits)
  have u: "[0..<2] = [0, 1::nat]"
    by code_simp
  have tr: "triu_indices (Suc (Suc 0)) = [(0, 1)]"
    by (simp add: triu_indices_def)
  have sb: "snd (score_basket mixed_basket example_table) = Inr \<lparr>activity = 13, cluster = 1\<rparr>"
    by (simp add: score_basket_def feature_synthetic_fp_def cluster_score_def
        get_samples_fps_def mixed_basket_def example_table_def mean_axis0_def tr u
        corr_pearson_def pearson_examples nansum_def nan_to_zero_def power2_eq_square)
  have s0: "snd (score_basket (example_baskets ! 0) example_table)
              = Inr \<lparr>activity = 5, cluster = 0\<rparr>"
    by (simp add: score_basket_def feature_synthetic_fp_def cluster_score_def
        get_samples_fps_def example_baskets_def example_table_def mean_axis0_def u)
  note b = cluster_score_bounds [OF w sb]
  from w sb b [THEN conjunct1] b [THEN conjunct2, THEN conjunct1] s0 show ?thesis
    by (intro conjI)
qed

end
